theory Spec2Isabelle
  imports Main
begin

section \<open>Connection settings of the admin panel (Connections.svelte)\<close>

text \<open>
  The component keeps the OpenAI-compatible connections in parallel arrays indexed by
  position (base URLs, key inputs, keep flags, key descriptors) and a config object keyed
  by the same position; the Ollama connections are a URL array and a config object.
  The handlers are modelled by explicit state passing. A handler that awaits the server
  takes the awaited response as an argument (\<open>None\<close> when the request was rejected and
  the \<open>catch\<close> left \<open>res\<close> undefined) and runs to completion; toasts and the refresh of
  the model list are not part of the state and are left out.
\<close>

subsection \<open>Data\<close>

text \<open>Type \<open>OpenAIKeyDescriptor\<close>, as built by \<open>defaultKeyDescriptor\<close>.\<close>

record OpenAIKeyDescriptor =
  has_value :: bool
  masked :: string
  fingerprint :: "string option"

text \<open>Values of the fields of a per-connection config object.\<close>

datatype jsvalue = JBool bool | JString string

type_synonym config = "string \<rightharpoonup> jsvalue"

text \<open>
  \<open>OPENAI_API_CONFIGS\<close> and \<open>OLLAMA_API_CONFIGS\<close>: objects read and written at the
  positions of the URL array. A position without a config reads \<open>undefined\<close>
  (\<open>None\<close>).
\<close>

type_synonym configs = "nat \<rightharpoonup> config"

text \<open>The \<open>connection\<close> object handed over by the add and edit dialogs.\<close>

record connection =
  conn_url :: string
  conn_key :: "string option"
  conn_config :: "config option"
  conn_hasStoredKey :: "bool option"
  conn_keyChanged :: "bool option"

record security_meta =
  persistence_enabled :: bool
  encryption_enabled :: bool

record keys_metadata =
  km_persistence_enabled :: "bool option"
  km_encryption_enabled :: "bool option"

text \<open>The fields of the server's answer that \<open>updateOpenAIHandler\<close> reads.\<close>

record OpenAIConfigResponse =
  res_OPENAI_API_BASE_URLS :: "string list"
  res_OPENAI_API_CONFIGS :: configs
  res_OPENAI_API_KEYS :: "OpenAIKeyDescriptor option list option"
  res_OPENAI_API_KEYS_METADATA :: "keys_metadata option"
  res_OPENAI_ALLOWED_BASE_URLS :: "string list option"

text \<open>One entry of \<open>keyPayloads\<close>: \<open>{ keep: true }\<close> or \<open>{ value: ... }\<close>.\<close>

datatype key_payload = Keep | Value string

text \<open>The body passed to \<open>updateOpenAIConfig\<close> and to \<open>updateOllamaConfig\<close>.\<close>

record openai_request =
  req_ENABLE_OPENAI_API :: bool
  req_OPENAI_API_BASE_URLS :: "string list"
  req_OPENAI_API_KEYS :: "key_payload list"
  req_OPENAI_API_CONFIGS :: configs

record ollama_request =
  req_ENABLE_OLLAMA_API :: bool
  req_OLLAMA_BASE_URLS :: "string list"
  req_OLLAMA_API_CONFIGS :: configs

text \<open>The component's variables.\<close>

record state =
  OLLAMA_BASE_URLS :: "string list"
  OLLAMA_API_CONFIGS :: configs
  OPENAI_API_KEYS :: "string list"
  OPENAI_API_KEY_KEEP :: "bool list"
  OPENAI_API_KEY_METADATA :: "OpenAIKeyDescriptor option list"
  OPENAI_API_BASE_URLS :: "string list"
  OPENAI_API_CONFIGS :: configs
  openAIKeySecurityMeta :: security_meta
  allowedOpenAIBaseUrls :: "string list"
  ENABLE_OPENAI_API :: "bool option"
  ENABLE_OLLAMA_API :: "bool option"

subsection \<open>Masking\<close>

definition defaultKeyDescriptor :: OpenAIKeyDescriptor where
  "defaultKeyDescriptor = \<lparr>has_value = False, masked = [], fingerprint = None\<rparr>"

text \<open>
  \<open>maskKeyForDisplay\<close>: the empty key gives the empty string; otherwise
  \<open>key.slice(-4)\<close> is kept and preceded by \<open>max(key.length - visible.length, 4)\<close> stars.
\<close>

definition maskKeyForDisplay :: "string \<Rightarrow> string" where
  "maskKeyForDisplay key =
     (if key = [] then []
      else
        let visible = drop (length key - 4) key;
            maskedLength = max (length key - length visible) 4
        in replicate maskedLength (CHR ''*'') @ visible)"

subsection \<open>Keeping the arrays aligned\<close>

text \<open>\<open>item ?? defaultKeyDescriptor()\<close>\<close>

definition orDefaultKeyDescriptor :: "OpenAIKeyDescriptor option \<Rightarrow> OpenAIKeyDescriptor" where
  "orDefaultKeyDescriptor item = (case item of None \<Rightarrow> defaultKeyDescriptor | Some d \<Rightarrow> d)"

text \<open>
  \<open>ensureOpenAIArrayLengths\<close>: each of the three sibling arrays is cut
  (\<open>slice(0, n)\<close>) or padded to the length of \<open>OPENAI_API_BASE_URLS\<close>. Only the padded
  and the equal-length branch of the descriptors replace missing items by the default.
\<close>

definition ensureOpenAIArrayLengths :: "state \<Rightarrow> state" where
  "ensureOpenAIArrayLengths st =
     (let n = length (OPENAI_API_BASE_URLS st);
          keys = OPENAI_API_KEYS st;
          keys' =
            (if length keys > n then take n keys
             else if length keys < n then keys @ replicate (n - length keys) []
             else keys);
          keep = OPENAI_API_KEY_KEEP st;
          keep' =
            (if length keep > n then take n keep
             else if length keep < n then keep @ replicate (n - length keep) False
             else keep);
          metadata = OPENAI_API_KEY_METADATA st;
          metadata' =
            (if length metadata > n then take n metadata
             else if length metadata < n then
               map (\<lambda>item. Some (orDefaultKeyDescriptor item))
                 (metadata @ replicate (n - length metadata) None)
             else map (\<lambda>item. Some (orDefaultKeyDescriptor item)) metadata)
      in st\<lparr>OPENAI_API_KEYS := keys',
            OPENAI_API_KEY_KEEP := keep',
            OPENAI_API_KEY_METADATA := metadata'\<rparr>)"

text \<open>Invariant I1 for the OpenAI arrays.\<close>

definition aligned :: "state \<Rightarrow> bool" where
  "aligned st \<longleftrightarrow>
     length (OPENAI_API_KEYS st) = length (OPENAI_API_BASE_URLS st) \<and>
     length (OPENAI_API_KEY_KEEP st) = length (OPENAI_API_BASE_URLS st) \<and>
     length (OPENAI_API_KEY_METADATA st) = length (OPENAI_API_BASE_URLS st)"

subsection \<open>Submitting\<close>

text \<open>\<open>url.replace(/\/$/, '')\<close>: one slash at the very end is removed.\<close>

definition stripTrailingSlash :: "string \<Rightarrow> string" where
  "stripTrailingSlash url = (if url \<noteq> [] \<and> last url = CHR ''/'' then butlast url else url)"

text \<open>
  \<open>keyPayloads\<close>: one payload per URL. Reading a keep flag past the end of its array is
  \<open>undefined\<close>, hence falsy; \<open>OPENAI_API_KEYS[idx] ?? ''\<close> reads the empty string there.
\<close>

definition keyPayloads :: "state \<Rightarrow> key_payload list" where
  "keyPayloads st =
     map (\<lambda>idx.
            if idx < length (OPENAI_API_KEY_KEEP st) \<and> OPENAI_API_KEY_KEEP st ! idx then Keep
            else Value (if idx < length (OPENAI_API_KEYS st) then OPENAI_API_KEYS st ! idx else []))
       [0..<length (OPENAI_API_BASE_URLS st)]"

text \<open>\<open>x ?? false\<close> on an optional boolean, which is also its truthiness.\<close>

definition orFalse :: "bool option \<Rightarrow> bool" where
  "orFalse b = (case b of None \<Rightarrow> False | Some v \<Rightarrow> v)"

text \<open>The branch \<open>if (res) { ... }\<close> of \<open>updateOpenAIHandler\<close>.\<close>

definition applyOpenAIResponse :: "OpenAIConfigResponse \<Rightarrow> state \<Rightarrow> state" where
  "applyOpenAIResponse res st =
     (let urls = res_OPENAI_API_BASE_URLS res;
          metadata = (case res_OPENAI_API_KEYS res of None \<Rightarrow> [] | Some ds \<Rightarrow> ds)
      in ensureOpenAIArrayLengths
           (st\<lparr>OPENAI_API_BASE_URLS := urls,
               OPENAI_API_CONFIGS := res_OPENAI_API_CONFIGS res,
               OPENAI_API_KEY_METADATA := metadata,
               OPENAI_API_KEYS := map (\<lambda>_. []) urls,
               OPENAI_API_KEY_KEEP :=
                 map (\<lambda>item. case item of None \<Rightarrow> False | Some d \<Rightarrow> has_value d) metadata,
               openAIKeySecurityMeta :=
                 \<lparr>persistence_enabled =
                    (case res_OPENAI_API_KEYS_METADATA res of None \<Rightarrow> False
                     | Some m \<Rightarrow> orFalse (km_persistence_enabled m)),
                  encryption_enabled =
                    (case res_OPENAI_API_KEYS_METADATA res of None \<Rightarrow> False
                     | Some m \<Rightarrow> orFalse (km_encryption_enabled m))\<rparr>,
               allowedOpenAIBaseUrls :=
                 (case res_OPENAI_ALLOWED_BASE_URLS res of None \<Rightarrow> allowedOpenAIBaseUrls st
                  | Some us \<Rightarrow> us)\<rparr>))"

text \<open>
  \<open>updateOpenAIHandler\<close>: nothing happens while \<open>ENABLE_OPENAI_API\<close> is null. Otherwise
  the URLs are normalised, the arrays aligned and the request sent; the result is the
  request (if any) and the state after the answer \<open>res\<close> has been handled.
\<close>

definition updateOpenAIHandler ::
  "OpenAIConfigResponse option \<Rightarrow> state \<Rightarrow> openai_request option \<times> state" where
  "updateOpenAIHandler res st =
     (case ENABLE_OPENAI_API st of
        None \<Rightarrow> (None, st)
      | Some enable \<Rightarrow>
          let st1 = ensureOpenAIArrayLengths
                      (st\<lparr>OPENAI_API_BASE_URLS :=
                            map stripTrailingSlash (OPENAI_API_BASE_URLS st)\<rparr>);
              request =
                \<lparr>req_ENABLE_OPENAI_API = enable,
                 req_OPENAI_API_BASE_URLS = OPENAI_API_BASE_URLS st1,
                 req_OPENAI_API_KEYS = keyPayloads st1,
                 req_OPENAI_API_CONFIGS = OPENAI_API_CONFIGS st1\<rparr>
          in (Some request,
              case res of None \<Rightarrow> st1 | Some r \<Rightarrow> applyOpenAIResponse r st1))"

text \<open>
  \<open>updateOllamaHandler\<close>: the answer only triggers a toast and a refresh of the model
  list, so the state after the call does not depend on it.
\<close>

definition updateOllamaHandler :: "state \<Rightarrow> ollama_request option \<times> state" where
  "updateOllamaHandler st =
     (case ENABLE_OLLAMA_API st of
        None \<Rightarrow> (None, st)
      | Some enable \<Rightarrow>
          let st1 = st\<lparr>OLLAMA_BASE_URLS := map stripTrailingSlash (OLLAMA_BASE_URLS st)\<rparr>
          in (Some \<lparr>req_ENABLE_OLLAMA_API = enable,
                    req_OLLAMA_BASE_URLS = OLLAMA_BASE_URLS st1,
                    req_OLLAMA_API_CONFIGS = OLLAMA_API_CONFIGS st1\<rparr>,
              st1))"

subsection \<open>Adding a connection\<close>

text \<open>The descriptor shown for a key typed into a dialog (\<open>connection.key ? {...} : default\<close>).\<close>

definition descriptorOfKey :: "string option \<Rightarrow> OpenAIKeyDescriptor" where
  "descriptorOfKey key =
     (case key of
        None \<Rightarrow> defaultKeyDescriptor
      | Some k \<Rightarrow>
          if k \<noteq> [] then \<lparr>has_value = True, masked = maskKeyForDisplay k, fingerprint = None\<rparr>
          else defaultKeyDescriptor)"

definition addOpenAIConnectionHandler ::
  "connection \<Rightarrow> OpenAIConfigResponse option \<Rightarrow> state \<Rightarrow> openai_request option \<times> state" where
  "addOpenAIConnectionHandler connection res st =
     (let urls = OPENAI_API_BASE_URLS st @ [conn_url connection];
          keys = OPENAI_API_KEYS st @ [case conn_key connection of None \<Rightarrow> [] | Some k \<Rightarrow> k];
          keep = OPENAI_API_KEY_KEEP st @
                   [orFalse (conn_hasStoredKey connection) \<and> \<not> orFalse (conn_keyChanged connection)];
          metadata = OPENAI_API_KEY_METADATA st @ [Some (descriptorOfKey (conn_key connection))];
          cfgs = (OPENAI_API_CONFIGS st)(length urls - 1 := conn_config connection)
      in updateOpenAIHandler res
           (ensureOpenAIArrayLengths
              (st\<lparr>OPENAI_API_BASE_URLS := urls,
                  OPENAI_API_KEYS := keys,
                  OPENAI_API_KEY_KEEP := keep,
                  OPENAI_API_KEY_METADATA := metadata,
                  OPENAI_API_CONFIGS := cfgs\<rparr>)))"

text \<open>
  \<open>addOllamaConnectionHandler\<close>: the stored config is \<open>{ ...connection.config, key:
  connection.key }\<close>; spreading an undefined config contributes no field.
\<close>

definition addOllamaConnectionHandler :: "connection \<Rightarrow> state \<Rightarrow> ollama_request option \<times> state" where
  "addOllamaConnectionHandler connection st =
     (let urls = OLLAMA_BASE_URLS st @ [conn_url connection];
          cfg = (case conn_config connection of None \<Rightarrow> Map.empty | Some c \<Rightarrow> c)
                  (''key'' := map_option JString (conn_key connection));
          cfgs = (OLLAMA_API_CONFIGS st)(length urls - 1 \<mapsto> cfg)
      in updateOllamaHandler (st\<lparr>OLLAMA_BASE_URLS := urls, OLLAMA_API_CONFIGS := cfgs\<rparr>))"

subsection \<open>Editing a row\<close>

text \<open>
  The assignment \<open>xs[idx] = v\<close> of a JavaScript array: inside the array the slot is
  overwritten, at its end the value is appended, and past its end the array grows to
  length \<open>idx + 1\<close>. The slots skipped on the way hold nothing and read \<open>undefined\<close>;
  the model does not tell such a slot from a stored \<open>undefined\<close> and puts \<open>blank\<close>
  there, the value the component reads from it.
\<close>

definition assignAt :: "'a \<Rightarrow> 'a list \<Rightarrow> nat \<Rightarrow> 'a \<Rightarrow> 'a list" where
  "assignAt blank xs idx v =
     (if idx < length xs then xs[idx := v]
      else xs @ replicate (idx - length xs) blank @ [v])"

text \<open>
  The \<open>onSubmit\<close> callback of the row \<open>idx\<close> of the OpenAI list: it assigns at \<open>idx\<close> in
  the URL list, the configs and the three sibling arrays, aligns the arrays and submits.
  A skipped slot reads as the empty key input, as a false keep flag and as no descriptor;
  \<open>OPENAI_API_KEY_METADATA[idx] ?? defaultKeyDescriptor()\<close> is the default descriptor
  past the end of the array.
\<close>

definition onSubmitOpenAI ::
  "nat \<Rightarrow> connection \<Rightarrow> OpenAIConfigResponse option \<Rightarrow> state \<Rightarrow>
     openai_request option \<times> state" where
  "onSubmitOpenAI idx connection res st =
     (let st1 = st\<lparr>OPENAI_API_BASE_URLS :=
                       assignAt [] (OPENAI_API_BASE_URLS st) idx (conn_url connection),
                     OPENAI_API_CONFIGS := (OPENAI_API_CONFIGS st)(idx := conn_config connection)\<rparr>;
          st2 =
            (if orFalse (conn_keyChanged connection) then
               st1\<lparr>OPENAI_API_KEYS :=
                     assignAt [] (OPENAI_API_KEYS st) idx
                       (case conn_key connection of None \<Rightarrow> [] | Some k \<Rightarrow> k),
                   OPENAI_API_KEY_KEEP := assignAt False (OPENAI_API_KEY_KEEP st) idx False,
                   OPENAI_API_KEY_METADATA :=
                     assignAt None (OPENAI_API_KEY_METADATA st) idx
                       (Some (descriptorOfKey (conn_key connection)))\<rparr>
             else
               st1\<lparr>OPENAI_API_KEYS := assignAt [] (OPENAI_API_KEYS st) idx [],
                   OPENAI_API_KEY_KEEP :=
                     assignAt False (OPENAI_API_KEY_KEEP st) idx
                       (orFalse (conn_hasStoredKey connection)),
                   OPENAI_API_KEY_METADATA :=
                     assignAt None (OPENAI_API_KEY_METADATA st) idx
                       (Some ((if idx < length (OPENAI_API_KEY_METADATA st)
                               then orDefaultKeyDescriptor (OPENAI_API_KEY_METADATA st ! idx)
                               else defaultKeyDescriptor)
                                \<lparr>has_value := orFalse (conn_hasStoredKey connection)\<rparr>))\<rparr>)
      in updateOpenAIHandler res (ensureOpenAIArrayLengths st2))"

subsection \<open>Deleting a row\<close>

text \<open>\<open>xs.filter((x, i) => idx !== i)\<close>\<close>

definition filterOutIndex :: "nat \<Rightarrow> 'a list \<Rightarrow> 'a list" where
  "filterOutIndex idx xs = map snd (filter (\<lambda>(i, x). idx \<noteq> i) (enumerate 0 xs))"

text \<open>
  The loop that fills \<open>newConfig\<close>: for every position \<open>newIdx\<close> of the shortened URL
  array, \<open>newConfig[newIdx] = CONFIGS[newIdx < idx ? newIdx : newIdx + 1]\<close>.
\<close>

definition reindexConfigs :: "nat \<Rightarrow> nat \<Rightarrow> configs \<Rightarrow> configs" where
  "reindexConfigs idx n cfgs =
     fold (\<lambda>newIdx newConfig.
             newConfig(newIdx := cfgs (if newIdx < idx then newIdx else newIdx + 1)))
       [0..<n] Map.empty"

text \<open>
  The \<open>onDelete\<close> callback of the OpenAI row \<open>idx\<close>, up to its final call of
  \<open>updateOpenAIHandler\<close>, and the whole callback.
\<close>

definition deleteOpenAIConnection :: "nat \<Rightarrow> state \<Rightarrow> state" where
  "deleteOpenAIConnection idx st =
     (let urls = filterOutIndex idx (OPENAI_API_BASE_URLS st);
          keys = filterOutIndex idx (OPENAI_API_KEYS st);
          keep = filterOutIndex idx (OPENAI_API_KEY_KEEP st);
          metadata = filterOutIndex idx (OPENAI_API_KEY_METADATA st);
          newConfig = reindexConfigs idx (length urls) (OPENAI_API_CONFIGS st)
      in ensureOpenAIArrayLengths
           (st\<lparr>OPENAI_API_BASE_URLS := urls,
               OPENAI_API_KEYS := keys,
               OPENAI_API_KEY_KEEP := keep,
               OPENAI_API_KEY_METADATA := metadata,
               OPENAI_API_CONFIGS := newConfig\<rparr>))"

definition onDeleteOpenAI ::
  "nat \<Rightarrow> OpenAIConfigResponse option \<Rightarrow> state \<Rightarrow> openai_request option \<times> state" where
  "onDeleteOpenAI idx res st = updateOpenAIHandler res (deleteOpenAIConnection idx st)"


subsection \<open>Sequences of operations on the OpenAI list\<close>

text \<open>
  What an administrator can do to the OpenAI list: add a connection, submit the edit
  dialog of a row, delete a row, press Save. Each operation carries the server's answer
  to the request it sends. \<open>runOperations\<close> gives the states after each operation of a
  sequence, in order.
\<close>

datatype operation =
  AddConnection connection "OpenAIConfigResponse option"
| SubmitConnection nat connection "OpenAIConfigResponse option"
| DeleteConnection nat "OpenAIConfigResponse option"
| Save "OpenAIConfigResponse option"

fun applyOperation :: "operation \<Rightarrow> state \<Rightarrow> state" where
  "applyOperation (AddConnection c res) st = snd (addOpenAIConnectionHandler c res st)"
| "applyOperation (SubmitConnection idx c res) st = snd (onSubmitOpenAI idx c res st)"
| "applyOperation (DeleteConnection idx res) st = snd (onDeleteOpenAI idx res st)"
| "applyOperation (Save res) st = snd (updateOpenAIHandler res st)"

fun runOperations :: "operation list \<Rightarrow> state \<Rightarrow> state list" where
  "runOperations [] st = []"
| "runOperations (oper # opers) st =
     applyOperation oper st # runOperations opers (applyOperation oper st)"

subsection \<open>The allow-list check\<close>

datatype error = UrlNotAllowed

text \<open>
  Modelled from the spec: the check of a base URL against the allow-list. The component
  only hands \<open>allowedOpenAIBaseUrls\<close> to \<open>AddConnectionModal\<close> and \<open>OpenAIConnection\<close>
  and prints it; those dialogs and the admin API, which do the check, are not among the
  sources. Per edit the spec "normalizes baseUrl (strips trailing slash), rejects (error
  UrlNotAllowed) any URL not present in the configured allow-list when the allow-list is
  non-empty".
\<close>

definition validateBaseUrl :: "string list \<Rightarrow> string \<Rightarrow> error + string" where
  "validateBaseUrl allowList baseUrl =
     (let url = stripTrailingSlash baseUrl
      in if allowList \<noteq> [] \<and> url \<notin> set allowList then Inl UrlNotAllowed else Inr url)"

text \<open>
  Modelled from the spec: \<open>addConnection\<close> "validates URL against allow-list" before the
  connection reaches the store; the store is the component's \<open>addOpenAIConnectionHandler\<close>,
  the \<open>onSubmit\<close> of the dialog that was given \<open>allowedOpenAIBaseUrls\<close>.
\<close>

definition addConnection ::
  "connection \<Rightarrow> OpenAIConfigResponse option \<Rightarrow> state \<Rightarrow>
     error + (openai_request option \<times> state)" where
  "addConnection connection res st =
     (case validateBaseUrl (allowedOpenAIBaseUrls st) (conn_url connection) of
        Inl e \<Rightarrow> Inl e
      | Inr url \<Rightarrow> Inr (addOpenAIConnectionHandler connection res st))"

text \<open>
  Modelled from the spec: the URL step of \<open>upsertConnections\<close>, which validates the base
  URL of every edit and fails at the first one that is rejected.
\<close>

fun upsertConnections :: "string list \<Rightarrow> string list \<Rightarrow> error + string list" where
  "upsertConnections allowList [] = Inr []"
| "upsertConnections allowList (baseUrl # baseUrls) =
     (case validateBaseUrl allowList baseUrl of
        Inl e \<Rightarrow> Inl e
      | Inr url \<Rightarrow>
          (case upsertConnections allowList baseUrls of
             Inl e \<Rightarrow> Inl e
           | Inr urls \<Rightarrow> Inr (url # urls)))"

subsection \<open>Example data\<close>

text \<open>
  A loaded settings page with two connections per provider. The second OpenAI row has a
  stored key (keep flag set) and, at the same time, a key typed into its input field; its
  URL ends in a slash.
\<close>

definition exampleState :: state where
  "exampleState =
     \<lparr>OLLAMA_BASE_URLS = [''http://localhost:11434'', ''http://gpu:11434/''],
      OLLAMA_API_CONFIGS = [0 \<mapsto> [''enable'' \<mapsto> JBool True], 1 \<mapsto> [''enable'' \<mapsto> JBool False]],
      OPENAI_API_KEYS = [[], ''sk-new-key''],
      OPENAI_API_KEY_KEEP = [True, True],
      OPENAI_API_KEY_METADATA =
        [Some \<lparr>has_value = True, masked = ''****abcd'', fingerprint = None\<rparr>,
         Some \<lparr>has_value = True, masked = ''****wxyz'', fingerprint = None\<rparr>],
      OPENAI_API_BASE_URLS = [''https://api.openai.com/v1'', ''https://api.openai.com/v1/''],
      OPENAI_API_CONFIGS = [0 \<mapsto> [''enable'' \<mapsto> JBool True], 1 \<mapsto> [''enable'' \<mapsto> JBool False]],
      openAIKeySecurityMeta = \<lparr>persistence_enabled = False, encryption_enabled = False\<rparr>,
      allowedOpenAIBaseUrls = [''https://api.openai.com/v1''],
      ENABLE_OPENAI_API = Some True,
      ENABLE_OLLAMA_API = Some True\<rparr>"

text \<open>A connection as the add dialog submits it, with a freshly typed key.\<close>

definition exampleConnection :: connection where
  "exampleConnection =
     \<lparr>conn_url = ''https://evil.example.com'',
      conn_key = Some ''sk-secret-1234'',
      conn_config = Some [''enable'' \<mapsto> JBool True],
      conn_hasStoredKey = None,
      conn_keyChanged = Some True\<rparr>"

text \<open>An answer of the server with two URLs and a descriptor for the first only.\<close>

definition exampleResponse :: OpenAIConfigResponse where
  "exampleResponse =
     \<lparr>res_OPENAI_API_BASE_URLS = [''https://api.openai.com/v1'', ''https://eu.example.org/v1''],
      res_OPENAI_API_CONFIGS = Map.empty,
      res_OPENAI_API_KEYS =
        Some [Some \<lparr>has_value = True, masked = ''****abcd'', fingerprint = Some ''f00d''\<rparr>],
      res_OPENAI_API_KEYS_METADATA = None,
      res_OPENAI_ALLOWED_BASE_URLS = None\<rparr>"

text \<open>The variables as the component declares them, before the configuration is loaded.\<close>

definition initialState :: state where
  "initialState =
     \<lparr>OLLAMA_BASE_URLS = [[]],
      OLLAMA_API_CONFIGS = Map.empty,
      OPENAI_API_KEYS = [[]],
      OPENAI_API_KEY_KEEP = [],
      OPENAI_API_KEY_METADATA = [],
      OPENAI_API_BASE_URLS = [[]],
      OPENAI_API_CONFIGS = Map.empty,
      openAIKeySecurityMeta = \<lparr>persistence_enabled = False, encryption_enabled = False\<rparr>,
      allowedOpenAIBaseUrls = [],
      ENABLE_OPENAI_API = None,
      ENABLE_OLLAMA_API = None\<rparr>"

section \<open>Properties\<close>

subsection \<open>Masking\<close>

lemma maskKeyForDisplay_nonempty:
  "key \<noteq> [] \<Longrightarrow>
   maskKeyForDisplay key =
     replicate (max (length key - 4) 4) (CHR ''*'') @ drop (length key - 4) key"
  by (simp add: maskKeyForDisplay_def Let_def)

lemma maskKeyForDisplay_twice_long:
  assumes h: "4 \<le> length key"
  shows "maskKeyForDisplay (maskKeyForDisplay key) = maskKeyForDisplay key"
proof -
  let ?m = "max (length key - 4) 4"
  let ?v = "drop (length key - 4) key"
  have ne: "key \<noteq> []" using h by auto
  have lv: "length ?v = 4" using h by simp
  have s: "maskKeyForDisplay key = replicate ?m (CHR ''*'') @ ?v"
    using maskKeyForDisplay_nonempty[OF ne] .
  have l: "length (maskKeyForDisplay key) = ?m + 4" using s lv by simp
  have ne2: "maskKeyForDisplay key \<noteq> []" using l by auto
  have d: "drop (length (maskKeyForDisplay key) - 4) (maskKeyForDisplay key) = ?v"
    using s l lv by simp
  show ?thesis
    using maskKeyForDisplay_nonempty[OF ne2] unfolding d l using s by simp
qed

lemma maskKeyForDisplay_twice_short:
  assumes ne: "key \<noteq> []" and h: "length key < 4"
  shows "maskKeyForDisplay (maskKeyForDisplay key) \<noteq> maskKeyForDisplay key"
proof -
  have s: "maskKeyForDisplay key = replicate 4 (CHR ''*'') @ key"
    using maskKeyForDisplay_nonempty[OF ne] h by simp
  have l: "length (maskKeyForDisplay key) = 4 + length key" using s by simp
  have ne2: "maskKeyForDisplay key \<noteq> []" using l by auto
  have "length (maskKeyForDisplay (maskKeyForDisplay key)) = 8"
    using maskKeyForDisplay_nonempty[OF ne2] l h ne by simp
  then show ?thesis using l h by auto
qed

lemma maskKeyForDisplay_empty: "maskKeyForDisplay [] = []"
  by (simp add: maskKeyForDisplay_def)

text \<open>
  Both call sites are \<open>connection.key ? { masked: maskKeyForDisplay(connection.key), ... }
  : defaultKeyDescriptor()\<close>: the function is given a key only when it is non-empty.
\<close>

lemma descriptorOfKey_cases:
  "descriptorOfKey None = defaultKeyDescriptor"
  "descriptorOfKey (Some []) = defaultKeyDescriptor"
  "k \<noteq> [] \<Longrightarrow>
   descriptorOfKey (Some k) = \<lparr>has_value = True, masked = maskKeyForDisplay k, fingerprint = None\<rparr>"
  by (simp_all add: descriptorOfKey_def)

text \<open>
  C2: for every secret given to \<open>maskKeyForDisplay\<close> (a non-empty key, see above) the
  display is a run of the masking character followed by the trailing four characters of
  the secret (all of it when it is shorter); the run has \<open>max (length - 4) 4\<close>
  characters, so at least four whatever the length of the input. For a secret of length at
  least four the visible tail has exactly four characters and nothing else of the secret
  shows: two secrets of the same length with the same last four characters have the same
  display.
\<close>

theorem maskKeyForDisplay_keeps_last_four:
  assumes "key \<noteq> []"
  shows "(\<exists>m. 4 \<le> m \<and> m = max (length key - 4) 4 \<and>
            maskKeyForDisplay key = replicate m (CHR ''*'') @ drop (length key - 4) key) \<and>
         (4 \<le> length key \<longrightarrow>
            length (drop (length key - 4) key) = 4 \<and>
            (\<forall>key'. length key' = length key \<and>
                    drop (length key' - 4) key' = drop (length key - 4) key \<longrightarrow>
                    maskKeyForDisplay key' = maskKeyForDisplay key))"
proof -
  have a: "maskKeyForDisplay key =
             replicate (max (length key - 4) 4) (CHR ''*'') @ drop (length key - 4) key"
    using assms by (rule maskKeyForDisplay_nonempty)
  have b: "maskKeyForDisplay key' = maskKeyForDisplay key"
    if "length key' = length key" and "drop (length key' - 4) key' = drop (length key - 4) key"
    for key'
  proof -
    have "key' \<noteq> []" using that(1) assms by auto
    then show ?thesis using maskKeyForDisplay_nonempty[of key'] a that by simp
  qed
  have c: "4 \<le> max (length key - 4) 4" by simp
  have d: "4 \<le> length key \<Longrightarrow> length (drop (length key - 4) key) = 4" by simp
  show ?thesis using a b c d by blast
qed

theorem maskKeyForDisplay_keeps_last_four_witness:
  "''sk-secret-1234'' \<noteq> [] \<and> 4 \<le> length ''sk-secret-1234'' \<and>
   maskKeyForDisplay ''sk-secret-1234'' = ''**********1234'' \<and>
   maskKeyForDisplay ''pk-public-1234'' = maskKeyForDisplay ''sk-secret-1234''"
proof -
  have ne: "''sk-secret-1234'' \<noteq> []" by simp
  have len: "4 \<le> length ''sk-secret-1234''" by simp
  note t = maskKeyForDisplay_keeps_last_four[OF ne]
  have r: "replicate 10 (CHR ''*'') = ''**********''" by (simp add: numeral_eq_Suc)
  have k: "maskKeyForDisplay ''sk-secret-1234'' = ''**********1234''"
    using t[THEN conjunct1] by (simp add: r)
  note u = t[THEN conjunct2, rule_format, OF len, THEN conjunct2, rule_format,
      of "''pk-public-1234''"]
  have p: "maskKeyForDisplay ''pk-public-1234'' = maskKeyForDisplay ''sk-secret-1234''"
    by (rule u) simp
  show ?thesis using ne len k p by blast
qed

text \<open>
  C9, as stated, fails for secrets of one to three characters: the first display has four
  stars and the whole secret, and masking that display again turns part of it into more
  stars.
\<close>

theorem maskKeyForDisplay_not_idempotent:
  "maskKeyForDisplay (maskKeyForDisplay ''abc'') \<noteq> maskKeyForDisplay ''abc''"
  by (simp add: maskKeyForDisplay_def)

text \<open>
  C9 (amended): masking a display again gives the same display exactly when the secret is
  empty or has at least four characters.
\<close>

theorem maskKeyForDisplay_idempotent_iff:
  "maskKeyForDisplay (maskKeyForDisplay key) = maskKeyForDisplay key \<longleftrightarrow>
     key = [] \<or> 4 \<le> length key"
proof (cases "key = []")
  case True
  then show ?thesis by (simp add: maskKeyForDisplay_def)
next
  case False
  show ?thesis
  proof (cases "4 \<le> length key")
    case True
    then show ?thesis using maskKeyForDisplay_twice_long by simp
  next
    case short: False
    then have "length key < 4" by simp
    then show ?thesis using maskKeyForDisplay_twice_short[OF False] False by simp
  qed
qed

theorem maskKeyForDisplay_idempotent_iff_witness:
  "4 \<le> length ''sk-1'' \<and>
   maskKeyForDisplay (maskKeyForDisplay ''sk-1'') = maskKeyForDisplay ''sk-1''"
proof -
  have l: "4 \<le> length ''sk-1''" by simp
  show ?thesis using l maskKeyForDisplay_idempotent_iff[of "''sk-1''"] by blast
qed

subsection \<open>Alignment of the sibling arrays\<close>

lemma ensure_urls [simp]:
  "OPENAI_API_BASE_URLS (ensureOpenAIArrayLengths st) = OPENAI_API_BASE_URLS st"
  by (simp add: ensureOpenAIArrayLengths_def Let_def)

lemma ensure_configs [simp]:
  "OPENAI_API_CONFIGS (ensureOpenAIArrayLengths st) = OPENAI_API_CONFIGS st"
  by (simp add: ensureOpenAIArrayLengths_def Let_def)

lemma ensure_enable [simp]:
  "ENABLE_OPENAI_API (ensureOpenAIArrayLengths st) = ENABLE_OPENAI_API st"
  by (simp add: ensureOpenAIArrayLengths_def Let_def)

lemma ensure_length_keys:
  "length (OPENAI_API_KEYS (ensureOpenAIArrayLengths st)) = length (OPENAI_API_BASE_URLS st)"
  by (simp add: ensureOpenAIArrayLengths_def Let_def)

lemma ensure_length_keep:
  "length (OPENAI_API_KEY_KEEP (ensureOpenAIArrayLengths st)) = length (OPENAI_API_BASE_URLS st)"
  by (simp add: ensureOpenAIArrayLengths_def Let_def)

lemma ensure_length_metadata:
  "length (OPENAI_API_KEY_METADATA (ensureOpenAIArrayLengths st)) =
     length (OPENAI_API_BASE_URLS st)"
  by (simp add: ensureOpenAIArrayLengths_def Let_def)

lemma aligned_ensure: "aligned (ensureOpenAIArrayLengths st)"
  by (simp add: aligned_def ensure_length_keys ensure_length_keep ensure_length_metadata)

lemma aligned_applyOpenAIResponse: "aligned (applyOpenAIResponse r st)"
  unfolding applyOpenAIResponse_def Let_def by (rule aligned_ensure)

lemma aligned_updateOpenAIHandler:
  "ENABLE_OPENAI_API st \<noteq> None \<or> aligned st \<Longrightarrow> aligned (snd (updateOpenAIHandler res st))"
  by (auto simp add: updateOpenAIHandler_def Let_def aligned_ensure aligned_applyOpenAIResponse
      split: option.splits)

lemma aligned_updateOpenAIHandler_ensure:
  "aligned (snd (updateOpenAIHandler res (ensureOpenAIArrayLengths st)))"
  by (rule aligned_updateOpenAIHandler) (simp add: aligned_ensure)

lemma aligned_add: "aligned (snd (addOpenAIConnectionHandler c res st))"
  unfolding addOpenAIConnectionHandler_def Let_def by (rule aligned_updateOpenAIHandler_ensure)

lemma aligned_delete: "aligned (snd (onDeleteOpenAI idx res st))"
  unfolding onDeleteOpenAI_def deleteOpenAIConnection_def Let_def
  by (rule aligned_updateOpenAIHandler_ensure)

lemma aligned_submit: "aligned (snd (onSubmitOpenAI idx c res st))"
  unfolding onSubmitOpenAI_def Let_def by (rule aligned_updateOpenAIHandler_ensure)

lemma updateOpenAIHandler_disabled:
  "ENABLE_OPENAI_API st = None \<Longrightarrow> updateOpenAIHandler res st = (None, st)"
  by (simp add: updateOpenAIHandler_def)

lemma aligned_applyOperation:
  "ENABLE_OPENAI_API st \<noteq> None \<or> aligned st \<or> (\<forall>res. oper \<noteq> Save res) \<Longrightarrow>
   aligned (applyOperation oper st)"
  by (cases oper) (auto simp add: aligned_add aligned_delete aligned_submit
      intro: aligned_updateOpenAIHandler)

lemma aligned_runOperations:
  "aligned st \<Longrightarrow> s \<in> set (runOperations opers st) \<Longrightarrow> aligned s"
proof (induction opers arbitrary: st)
  case Nil
  then show ?case by simp
next
  case (Cons oper opers)
  have a: "aligned (applyOperation oper st)"
    using Cons.prems(1) by (intro aligned_applyOperation) simp
  from Cons.prems(2) have "s = applyOperation oper st \<or>
      s \<in> set (runOperations opers (applyOperation oper st))"
    by simp
  then show ?case using a Cons.IH[OF a] by blast
qed

lemma aligned_runOperations_start:
  assumes "ENABLE_OPENAI_API st \<noteq> None \<or> aligned st \<or> (\<forall>res rest. opers \<noteq> Save res # rest)"
    and "s \<in> set (runOperations opers st)"
  shows "aligned s"
proof (cases opers)
  case Nil
  then show ?thesis using assms(2) by simp
next
  case (Cons oper rest)
  have "ENABLE_OPENAI_API st \<noteq> None \<or> aligned st \<or> (\<forall>res. oper \<noteq> Save res)"
    using assms(1) Cons by blast
  then have a: "aligned (applyOperation oper st)" by (rule aligned_applyOperation)
  from assms(2) Cons have "s = applyOperation oper st \<or>
      s \<in> set (runOperations rest (applyOperation oper st))"
    by simp
  then show ?thesis using a aligned_runOperations[OF a] by blast
qed

text \<open>
  C1, as stated, has the sibling lists equally long after every operation. The component
  declares one URL and one key input but no keep flag and no descriptor, with
  \<open>ENABLE_OPENAI_API\<close> null; a Save pressed then runs \<open>updateOpenAIHandler\<close>, which does
  nothing while \<open>ENABLE_OPENAI_API\<close> is null, and the lists stay unequal.
\<close>

theorem save_before_load_not_aligned:
  "runOperations [Save None] initialState = [snd (updateOpenAIHandler None initialState)] \<and>
   length (OPENAI_API_BASE_URLS (snd (updateOpenAIHandler None initialState))) = 1 \<and>
   length (OPENAI_API_KEY_KEEP (snd (updateOpenAIHandler None initialState))) = 0 \<and>
   length (OPENAI_API_KEY_METADATA (snd (updateOpenAIHandler None initialState))) = 0 \<and>
   \<not> aligned (snd (updateOpenAIHandler None initialState))"
proof -
  have e: "ENABLE_OPENAI_API initialState = None" by (simp add: initialState_def)
  have s: "snd (updateOpenAIHandler None initialState) = initialState"
    using updateOpenAIHandler_disabled[OF e, of None] by simp
  have r: "runOperations [Save None] initialState = [snd (updateOpenAIHandler None initialState)]"
    by simp
  have l: "length (OPENAI_API_BASE_URLS initialState) = 1"
    "length (OPENAI_API_KEY_KEEP initialState) = 0"
    "length (OPENAI_API_KEY_METADATA initialState) = 0"
    "\<not> aligned initialState"
    by (simp_all add: initialState_def aligned_def)
  show ?thesis unfolding s using r[unfolded s] l by blast
qed

text \<open>
  C1 (amended): \<open>ensureOpenAIArrayLengths\<close>, \<open>addOpenAIConnectionHandler\<close>, the delete
  callback and the row's submit callback each leave key inputs, keep flags and descriptors
  as long as the URL list, from any state and for any answer of the server.
  \<open>updateOpenAIHandler\<close> on its own (Save) does so when \<open>ENABLE_OPENAI_API\<close> is set or the
  lists were equally long before; while \<open>ENABLE_OPENAI_API\<close> is null it sends nothing and
  leaves the state as it is. Hence, in a sequence of operations that starts with
  \<open>ENABLE_OPENAI_API\<close> set, or with lists equally long, or with an operation other than
  Save, the lists are equally long after every operation.
\<close>

theorem sibling_lists_aligned:
  "aligned (ensureOpenAIArrayLengths st) \<and>
   aligned (snd (addOpenAIConnectionHandler connection res st)) \<and>
   aligned (snd (onDeleteOpenAI idx res st)) \<and>
   aligned (snd (onSubmitOpenAI idx connection res st)) \<and>
   (ENABLE_OPENAI_API st \<noteq> None \<or> aligned st \<longrightarrow>
      aligned (snd (updateOpenAIHandler res st))) \<and>
   (ENABLE_OPENAI_API st = None \<longrightarrow> updateOpenAIHandler res st = (None, st)) \<and>
   (ENABLE_OPENAI_API st \<noteq> None \<or> aligned st \<or> (\<forall>res' rest. opers \<noteq> Save res' # rest) \<longrightarrow>
      (\<forall>s \<in> set (runOperations opers st). aligned s))"
proof (intro conjI impI ballI)
  show "aligned (ensureOpenAIArrayLengths st)" by (rule aligned_ensure)
  show "aligned (snd (addOpenAIConnectionHandler connection res st))" by (rule aligned_add)
  show "aligned (snd (onDeleteOpenAI idx res st))" by (rule aligned_delete)
  show "aligned (snd (onSubmitOpenAI idx connection res st))" by (rule aligned_submit)
next
  assume "ENABLE_OPENAI_API st \<noteq> None \<or> aligned st"
  then show "aligned (snd (updateOpenAIHandler res st))" by (rule aligned_updateOpenAIHandler)
next
  assume "ENABLE_OPENAI_API st = None"
  then show "updateOpenAIHandler res st = (None, st)" by (rule updateOpenAIHandler_disabled)
next
  fix s
  assume "ENABLE_OPENAI_API st \<noteq> None \<or> aligned st \<or>
            (\<forall>res' rest. opers \<noteq> Save res' # rest)"
    and "s \<in> set (runOperations opers st)"
  then show "aligned s" by (rule aligned_runOperations_start)
qed

theorem sibling_lists_aligned_witness:
  "ENABLE_OPENAI_API exampleState = Some True \<and>
   ENABLE_OPENAI_API initialState = None \<and> \<not> aligned initialState \<and>
   aligned (snd (updateOpenAIHandler None exampleState)) \<and>
   updateOpenAIHandler None initialState = (None, initialState) \<and>
   aligned (snd (onSubmitOpenAI 0 exampleConnection None initialState)) \<and>
   list_all aligned
     (runOperations
        [DeleteConnection 1 None, Save None,
         AddConnection exampleConnection (Some exampleResponse),
         SubmitConnection 1 exampleConnection None] exampleState) \<and>
   list_all aligned
     (runOperations [SubmitConnection 0 exampleConnection None, Save None] initialState)"
proof -
  let ?opers = "[DeleteConnection 1 None, Save None,
         AddConnection exampleConnection (Some exampleResponse),
         SubmitConnection 1 exampleConnection None]"
  let ?opers' = "[SubmitConnection 0 exampleConnection None, Save None]"
  have e: "ENABLE_OPENAI_API exampleState = Some True" by (simp add: exampleState_def)
  then have e': "ENABLE_OPENAI_API exampleState \<noteq> None" by simp
  have n: "ENABLE_OPENAI_API initialState = None" and u: "\<not> aligned initialState"
    by (simp_all add: initialState_def aligned_def)
  have f: "\<forall>res' rest. ?opers' \<noteq> Save res' # rest" by simp
  note t1 = sibling_lists_aligned[where st = exampleState and connection = exampleConnection
      and res = None and idx = 1 and opers = ?opers]
  note t2 = sibling_lists_aligned[where st = initialState and connection = exampleConnection
      and res = None and idx = 0 and opers = ?opers']
  have r1: "list_all aligned (runOperations ?opers exampleState)"
    unfolding list_all_iff using e' t1 by blast
  have r2: "list_all aligned (runOperations ?opers' initialState)"
    unfolding list_all_iff using f t2 by blast
  show ?thesis using e e' n u r1 r2 t1 t2 by blast
qed

subsection \<open>Deleting a row\<close>





















subsection \<open>What a submit sends\<close>

lemma keyPayloads_ensure: "keyPayloads (ensureOpenAIArrayLengths st) = keyPayloads st"
  unfolding keyPayloads_def ensure_urls
  by (rule map_cong) (auto simp add: ensureOpenAIArrayLengths_def Let_def nth_append)

lemma length_keyPayloads: "length (keyPayloads st) = length (OPENAI_API_BASE_URLS st)"
  by (simp add: keyPayloads_def)

lemma nth_keyPayloads:
  "idx < length (OPENAI_API_BASE_URLS st) \<Longrightarrow>
   keyPayloads st ! idx =
     (if idx < length (OPENAI_API_KEY_KEEP st) \<and> OPENAI_API_KEY_KEEP st ! idx then Keep
      else Value (if idx < length (OPENAI_API_KEYS st) then OPENAI_API_KEYS st ! idx else []))"
  by (simp add: keyPayloads_def)

lemma updateOpenAIHandler_request:
  "ENABLE_OPENAI_API st = Some enable \<Longrightarrow>
   fst (updateOpenAIHandler res st) =
     Some \<lparr>req_ENABLE_OPENAI_API = enable,
           req_OPENAI_API_BASE_URLS = map stripTrailingSlash (OPENAI_API_BASE_URLS st),
           req_OPENAI_API_KEYS =
             keyPayloads
               (st\<lparr>OPENAI_API_BASE_URLS := map stripTrailingSlash (OPENAI_API_BASE_URLS st)\<rparr>),
           req_OPENAI_API_CONFIGS = OPENAI_API_CONFIGS st\<rparr>"
  by (simp add: updateOpenAIHandler_def Let_def keyPayloads_ensure)

lemma updateOllamaHandler_request:
  "ENABLE_OLLAMA_API st = Some enable \<Longrightarrow>
   updateOllamaHandler st =
     (Some \<lparr>req_ENABLE_OLLAMA_API = enable,
            req_OLLAMA_BASE_URLS = map stripTrailingSlash (OLLAMA_BASE_URLS st),
            req_OLLAMA_API_CONFIGS = OLLAMA_API_CONFIGS st\<rparr>,
      st\<lparr>OLLAMA_BASE_URLS := map stripTrailingSlash (OLLAMA_BASE_URLS st)\<rparr>)"
  by (simp add: updateOllamaHandler_def Let_def)

lemma keyPayloads_keys_update:
  assumes "OPENAI_API_BASE_URLS s2 = OPENAI_API_BASE_URLS s1"
    and "OPENAI_API_KEY_KEEP s2 = OPENAI_API_KEY_KEEP s1"
    and "OPENAI_API_KEYS s2 = (OPENAI_API_KEYS s1)[idx := v]"
    and "idx < length (OPENAI_API_KEY_KEEP s1)" and "OPENAI_API_KEY_KEEP s1 ! idx"
  shows "keyPayloads s2 = keyPayloads s1"
  unfolding keyPayloads_def
proof (rule map_cong)
  show "[0..<length (OPENAI_API_BASE_URLS s2)] = [0..<length (OPENAI_API_BASE_URLS s1)]"
    using assms(1) by simp
next
  fix x
  show "(if x < length (OPENAI_API_KEY_KEEP s2) \<and> OPENAI_API_KEY_KEEP s2 ! x then Keep
         else Value (if x < length (OPENAI_API_KEYS s2) then OPENAI_API_KEYS s2 ! x else [])) =
        (if x < length (OPENAI_API_KEY_KEEP s1) \<and> OPENAI_API_KEY_KEEP s1 ! x then Keep
         else Value (if x < length (OPENAI_API_KEYS s1) then OPENAI_API_KEYS s1 ! x else []))"
  proof (cases "x = idx")
    case True
    then show ?thesis using assms by simp
  next
    case False
    then have "(OPENAI_API_KEYS s1)[idx := v] ! x = OPENAI_API_KEYS s1 ! x" by simp
    then show ?thesis using assms by simp
  qed
qed

text \<open>
  C3: when the keep flag of row \<open>idx\<close> is set, the payload entry of that row is
  \<open>{ keep: true }\<close> whatever the key inputs hold, so it is the same for any two contents
  of the key inputs; and changing only the key input of that row changes nothing in the
  request that is sent.
\<close>

theorem keep_payload_independent_of_key_input:
  assumes en: "ENABLE_OPENAI_API st = Some enable"
    and iu: "idx < length (OPENAI_API_BASE_URLS st)"
    and ik: "idx < length (OPENAI_API_KEY_KEEP st)"
    and kp: "OPENAI_API_KEY_KEEP st ! idx"
  shows "\<exists>reqA reqB.
           fst (updateOpenAIHandler resA (st\<lparr>OPENAI_API_KEYS := keysA\<rparr>)) = Some reqA \<and>
           fst (updateOpenAIHandler resB (st\<lparr>OPENAI_API_KEYS := keysB\<rparr>)) = Some reqB \<and>
           idx < length (req_OPENAI_API_KEYS reqA) \<and>
           req_OPENAI_API_KEYS reqA ! idx = Keep \<and>
           req_OPENAI_API_KEYS reqB ! idx = req_OPENAI_API_KEYS reqA ! idx \<and>
           (keysB = keysA[idx := v] \<longrightarrow> reqB = reqA)"
proof -
  let ?s1 = "st\<lparr>OPENAI_API_KEYS := keysA\<rparr>" and ?s2 = "st\<lparr>OPENAI_API_KEYS := keysB\<rparr>"
  let ?n1 = "?s1\<lparr>OPENAI_API_BASE_URLS := map stripTrailingSlash (OPENAI_API_BASE_URLS ?s1)\<rparr>"
  let ?n2 = "?s2\<lparr>OPENAI_API_BASE_URLS := map stripTrailingSlash (OPENAI_API_BASE_URLS ?s2)\<rparr>"
  have r1: "fst (updateOpenAIHandler resA ?s1) =
      Some \<lparr>req_ENABLE_OPENAI_API = enable,
            req_OPENAI_API_BASE_URLS = map stripTrailingSlash (OPENAI_API_BASE_URLS st),
            req_OPENAI_API_KEYS = keyPayloads ?n1,
            req_OPENAI_API_CONFIGS = OPENAI_API_CONFIGS st\<rparr>"
    using updateOpenAIHandler_request[of ?s1 enable resA] en by simp
  have r2: "fst (updateOpenAIHandler resB ?s2) =
      Some \<lparr>req_ENABLE_OPENAI_API = enable,
            req_OPENAI_API_BASE_URLS = map stripTrailingSlash (OPENAI_API_BASE_URLS st),
            req_OPENAI_API_KEYS = keyPayloads ?n2,
            req_OPENAI_API_CONFIGS = OPENAI_API_CONFIGS st\<rparr>"
    using updateOpenAIHandler_request[of ?s2 enable resB] en by simp
  have k1: "keyPayloads ?n1 ! idx = Keep" using iu ik kp by (simp add: nth_keyPayloads)
  have k2: "keyPayloads ?n2 ! idx = Keep" using iu ik kp by (simp add: nth_keyPayloads)
  have l1: "idx < length (keyPayloads ?n1)" using iu by (simp add: length_keyPayloads)
  have eq: "keyPayloads ?n2 = keyPayloads ?n1" if "keysB = keysA[idx := v]"
    using ik kp that by (intro keyPayloads_keys_update[where idx = idx and v = v]) simp_all
  show ?thesis using r1 r2 k1 k2 l1 eq by simp
qed

theorem keep_payload_independent_of_key_input_witness:
  "ENABLE_OPENAI_API exampleState = Some True \<and>
   1 < length (OPENAI_API_BASE_URLS exampleState) \<and>
   1 < length (OPENAI_API_KEY_KEEP exampleState) \<and>
   OPENAI_API_KEY_KEEP exampleState ! 1 \<and>
   (\<exists>reqA reqB.
      fst (updateOpenAIHandler None (exampleState\<lparr>OPENAI_API_KEYS := [[], ''sk-new-key'']\<rparr>)) =
        Some reqA \<and>
      fst (updateOpenAIHandler None (exampleState\<lparr>OPENAI_API_KEYS := [[], ''sk-other-key'']\<rparr>)) =
        Some reqB \<and>
      req_OPENAI_API_KEYS reqA ! 1 = Keep \<and> reqB = reqA)"
proof -
  have en: "ENABLE_OPENAI_API exampleState = Some True"
    and iu: "1 < length (OPENAI_API_BASE_URLS exampleState)"
    and ik: "1 < length (OPENAI_API_KEY_KEEP exampleState)"
    and kp: "OPENAI_API_KEY_KEEP exampleState ! 1"
    by (simp_all add: exampleState_def)
  have u: "[[], ''sk-other-key''] = [[], ''sk-new-key''][1 := ''sk-other-key'']" by simp
  note t = keep_payload_independent_of_key_input[
      where keysA = "[[], ''sk-new-key'']" and keysB = "[[], ''sk-other-key'']"
        and v = "''sk-other-key''" and resA = None and resB = None, OF en iu ik kp]
  show ?thesis using en iu ik kp u t by blast
qed

text \<open>
  C4, as stated, wants an edit with the keep flag set and a non-empty key value to fail
  with \<open>InvalidKeyEdit\<close>. Row 1 of the example has both; the submit goes out, and its
  entry for that row is \<open>{ keep: true }\<close>.
\<close>

theorem keep_with_key_value_not_rejected:
  "OPENAI_API_KEY_KEEP exampleState ! 1 \<and>
   OPENAI_API_KEYS exampleState ! 1 = ''sk-new-key'' \<and>
   map_option req_OPENAI_API_KEYS (fst (updateOpenAIHandler None exampleState)) =
     Some [Keep, Keep]"
proof -
  have en: "ENABLE_OPENAI_API exampleState = Some True" by (simp add: exampleState_def)
  have kp: "keyPayloads (exampleState\<lparr>OPENAI_API_BASE_URLS :=
              map stripTrailingSlash (OPENAI_API_BASE_URLS exampleState)\<rparr>) = [Keep, Keep]"
    by (simp add: keyPayloads_def exampleState_def upt_rec)
  have ex: "OPENAI_API_KEY_KEEP exampleState ! 1 \<and>
            OPENAI_API_KEYS exampleState ! 1 = ''sk-new-key''"
    by (simp add: exampleState_def)
  have "map_option req_OPENAI_API_KEYS (fst (updateOpenAIHandler None exampleState)) =
          Some [Keep, Keep]"
    unfolding updateOpenAIHandler_request[OF en, of None] kp by simp
  then show ?thesis using ex by blast
qed

text \<open>
  C4 (amended): once \<open>ENABLE_OPENAI_API\<close> is set, the submit always sends a request, with
  one payload entry per URL: \<open>{ keep: true }\<close> where the keep flag is set (whatever the key
  input holds) and \<open>{ value: key input }\<close> otherwise, the empty value standing for a
  cleared key.
\<close>

theorem key_edit_resolved_without_error:
  assumes en: "ENABLE_OPENAI_API st = Some enable"
  shows "\<exists>req. fst (updateOpenAIHandler res st) = Some req \<and>
           length (req_OPENAI_API_KEYS req) = length (OPENAI_API_BASE_URLS st) \<and>
           (\<forall>idx < length (OPENAI_API_BASE_URLS st).
              req_OPENAI_API_KEYS req ! idx =
                (if idx < length (OPENAI_API_KEY_KEEP st) \<and> OPENAI_API_KEY_KEEP st ! idx then Keep
                 else Value (if idx < length (OPENAI_API_KEYS st) then OPENAI_API_KEYS st ! idx
                             else [])))"
  using updateOpenAIHandler_request[OF en, of res]
  by (simp add: length_keyPayloads nth_keyPayloads)

theorem key_edit_resolved_without_error_witness:
  "ENABLE_OPENAI_API exampleState = Some True \<and>
   (\<exists>req. fst (updateOpenAIHandler (Some exampleResponse) exampleState) = Some req \<and>
      length (req_OPENAI_API_KEYS req) = 2 \<and>
      req_OPENAI_API_KEYS req ! 1 = Keep)"
proof -
  have en: "ENABLE_OPENAI_API exampleState = Some True" by (simp add: exampleState_def)
  have l: "length (OPENAI_API_BASE_URLS exampleState) = 2" by (simp add: exampleState_def)
  have k: "(if 1 < length (OPENAI_API_KEY_KEEP exampleState) \<and> OPENAI_API_KEY_KEEP exampleState ! 1
            then Keep
            else Value (if 1 < length (OPENAI_API_KEYS exampleState)
                        then OPENAI_API_KEYS exampleState ! 1 else [])) = Keep"
    by (simp add: exampleState_def)
  obtain req where r: "fst (updateOpenAIHandler (Some exampleResponse) exampleState) = Some req"
    and n: "length (req_OPENAI_API_KEYS req) = length (OPENAI_API_BASE_URLS exampleState)"
    and a: "\<forall>idx < length (OPENAI_API_BASE_URLS exampleState).
              req_OPENAI_API_KEYS req ! idx =
                (if idx < length (OPENAI_API_KEY_KEEP exampleState) \<and>
                    OPENAI_API_KEY_KEEP exampleState ! idx then Keep
                 else Value (if idx < length (OPENAI_API_KEYS exampleState)
                             then OPENAI_API_KEYS exampleState ! idx else []))"
    using key_edit_resolved_without_error[OF en, of "Some exampleResponse"] by blast
  have i: "1 < length (OPENAI_API_BASE_URLS exampleState)" using l by simp
  have "req_OPENAI_API_KEYS req ! 1 = Keep"
    using a[rule_format, OF i] unfolding k .
  moreover have "length (req_OPENAI_API_KEYS req) = 2" using n l by simp
  ultimately show ?thesis using en r by blast
qed

subsection \<open>URLs: normalisation and the allow-list\<close>

lemma stripTrailingSlash_append: "stripTrailingSlash (url @ ''/'') = url"
  by (simp add: stripTrailingSlash_def)

lemma stripTrailingSlash_id:
  "url = [] \<or> last url \<noteq> CHR ''/'' \<Longrightarrow> stripTrailingSlash url = url"
  by (auto simp add: stripTrailingSlash_def)

lemma upsertConnections_rejects:
  "allowList \<noteq> [] \<Longrightarrow> baseUrl \<in> set baseUrls \<Longrightarrow>
   stripTrailingSlash baseUrl \<notin> set allowList \<Longrightarrow>
   upsertConnections allowList baseUrls = Inl UrlNotAllowed"
proof (induction baseUrls)
  case Nil
  then show ?case by simp
next
  case (Cons u us)
  show ?case
  proof (cases "validateBaseUrl allowList u")
    case (Inl e)
    then show ?thesis by (cases e) simp
  next
    case (Inr url)
    then have "u \<noteq> baseUrl" using Cons.prems by (auto simp add: validateBaseUrl_def Let_def)
    then have "upsertConnections allowList us = Inl UrlNotAllowed"
      using Cons by simp
    then show ?thesis using Inr by simp
  qed
qed

text \<open>
  C6: with a non-empty allow-list, a base URL whose normalised form is not in the list is
  rejected with \<open>UrlNotAllowed\<close>, by the check itself, by \<open>addConnection\<close> and by
  \<open>upsertConnections\<close> as soon as one of the edits carries such a URL.
\<close>

theorem url_not_allowed_rejected:
  assumes "allowList \<noteq> []" and "stripTrailingSlash baseUrl \<notin> set allowList"
  shows "validateBaseUrl allowList baseUrl = Inl UrlNotAllowed \<and>
         (allowedOpenAIBaseUrls st = allowList \<and> conn_url connection = baseUrl \<longrightarrow>
            addConnection connection res st = Inl UrlNotAllowed) \<and>
         (baseUrl \<in> set baseUrls \<longrightarrow> upsertConnections allowList baseUrls = Inl UrlNotAllowed)"
  using assms upsertConnections_rejects[of allowList baseUrl baseUrls]
  by (auto simp add: validateBaseUrl_def addConnection_def Let_def)

theorem url_not_allowed_rejected_witness:
  "[''https://api.openai.com/v1''] \<noteq> [] \<and>
   stripTrailingSlash ''https://evil.example.com'' \<notin> set [''https://api.openai.com/v1''] \<and>
   validateBaseUrl [''https://api.openai.com/v1''] ''https://evil.example.com'' = Inl UrlNotAllowed \<and>
   addConnection exampleConnection None exampleState = Inl UrlNotAllowed \<and>
   upsertConnections [''https://api.openai.com/v1'']
     [''https://api.openai.com/v1/'', ''https://evil.example.com''] = Inl UrlNotAllowed"
proof -
  have ne: "[''https://api.openai.com/v1''] \<noteq> []" by simp
  have ni: "stripTrailingSlash ''https://evil.example.com'' \<notin> set [''https://api.openai.com/v1'']"
    by (simp add: stripTrailingSlash_def)
  have al: "allowedOpenAIBaseUrls exampleState = [''https://api.openai.com/v1'']"
    by (simp add: exampleState_def)
  have cu: "conn_url exampleConnection = ''https://evil.example.com''"
    by (simp add: exampleConnection_def)
  have m: "''https://evil.example.com'' \<in>
             set [''https://api.openai.com/v1/'', ''https://evil.example.com'']"
    by simp
  note t = url_not_allowed_rejected[OF ne ni, of exampleState exampleConnection None
      "[''https://api.openai.com/v1/'', ''https://evil.example.com'']"]
  show ?thesis using ne ni al cu m t by blast
qed

text \<open>
  C7: the request of \<open>updateOpenAIHandler\<close> and of \<open>updateOllamaHandler\<close> carries every
  base URL with its trailing slash stripped: a URL followed by one slash becomes that URL,
  a URL that does not end in a slash is unchanged. A URL that is an allow-listed entry
  followed by a slash therefore passes the allow-list check, as the entry.
\<close>

theorem urls_normalized_before_submit:
  "(ENABLE_OPENAI_API st = Some enable \<longrightarrow>
      (\<exists>req. fst (updateOpenAIHandler res st) = Some req \<and>
         req_OPENAI_API_BASE_URLS req = map stripTrailingSlash (OPENAI_API_BASE_URLS st))) \<and>
   (ENABLE_OLLAMA_API st = Some enable' \<longrightarrow>
      (\<exists>req. fst (updateOllamaHandler st) = Some req \<and>
         req_OLLAMA_BASE_URLS req = map stripTrailingSlash (OLLAMA_BASE_URLS st))) \<and>
   stripTrailingSlash (url @ ''/'') = url \<and>
   (url = [] \<or> last url \<noteq> CHR ''/'' \<longrightarrow> stripTrailingSlash url = url) \<and>
   (url \<in> set allowList \<longrightarrow> validateBaseUrl allowList (url @ ''/'') = Inr url)"
proof (intro conjI impI)
  assume "ENABLE_OPENAI_API st = Some enable"
  then show "\<exists>req. fst (updateOpenAIHandler res st) = Some req \<and>
         req_OPENAI_API_BASE_URLS req = map stripTrailingSlash (OPENAI_API_BASE_URLS st)"
    by (simp add: updateOpenAIHandler_request)
next
  assume "ENABLE_OLLAMA_API st = Some enable'"
  then show "\<exists>req. fst (updateOllamaHandler st) = Some req \<and>
         req_OLLAMA_BASE_URLS req = map stripTrailingSlash (OLLAMA_BASE_URLS st)"
    by (simp add: updateOllamaHandler_request)
next
  show "stripTrailingSlash (url @ ''/'') = url" by (rule stripTrailingSlash_append)
next
  assume "url = [] \<or> last url \<noteq> CHR ''/''"
  then show "stripTrailingSlash url = url" by (rule stripTrailingSlash_id)
next
  assume "url \<in> set allowList"
  then show "validateBaseUrl allowList (url @ ''/'') = Inr url"
    by (auto simp add: validateBaseUrl_def Let_def stripTrailingSlash_append)
qed

theorem urls_normalized_before_submit_witness:
  "ENABLE_OPENAI_API exampleState = Some True \<and> ENABLE_OLLAMA_API exampleState = Some True \<and>
   (\<exists>req. fst (updateOpenAIHandler None exampleState) = Some req \<and>
      req_OPENAI_API_BASE_URLS req = [''https://api.openai.com/v1'', ''https://api.openai.com/v1'']) \<and>
   (\<exists>req. fst (updateOllamaHandler exampleState) = Some req \<and>
      req_OLLAMA_BASE_URLS req = [''http://localhost:11434'', ''http://gpu:11434'']) \<and>
   ''https://api.openai.com/v1'' \<in> set [''https://api.openai.com/v1''] \<and>
   validateBaseUrl [''https://api.openai.com/v1''] ''https://api.openai.com/v1/'' =
     Inr ''https://api.openai.com/v1''"
proof -
  have e1: "ENABLE_OPENAI_API exampleState = Some True"
    and e2: "ENABLE_OLLAMA_API exampleState = Some True"
    by (simp_all add: exampleState_def)
  have u1: "map stripTrailingSlash (OPENAI_API_BASE_URLS exampleState) =
              [''https://api.openai.com/v1'', ''https://api.openai.com/v1'']"
    and u2: "map stripTrailingSlash (OLLAMA_BASE_URLS exampleState) =
              [''http://localhost:11434'', ''http://gpu:11434'']"
    by (simp_all add: exampleState_def stripTrailingSlash_def)
  have m: "''https://api.openai.com/v1'' \<in> set [''https://api.openai.com/v1'']" by simp
  have ap: "''https://api.openai.com/v1'' @ ''/'' = ''https://api.openai.com/v1/''" by simp
  note t = urls_normalized_before_submit[where st = exampleState and enable = True
      and enable' = True and res = None and url = "''https://api.openai.com/v1''"
      and allowList = "[''https://api.openai.com/v1'']", unfolded u1 u2 ap]
  show ?thesis using e1 e2 m t by blast
qed

subsection \<open>After the server has answered\<close>










subsection \<open>Where the key of a new connection is stored\<close>

lemma addOpenAI_configs_unanswered:
  "OPENAI_API_CONFIGS (snd (addOpenAIConnectionHandler connection None st)) =
     (OPENAI_API_CONFIGS st)(length (OPENAI_API_BASE_URLS st) := conn_config connection)"
  by (simp add: addOpenAIConnectionHandler_def updateOpenAIHandler_def Let_def
      split: option.splits)

lemma addOpenAI_request_configs:
  "map_option req_OPENAI_API_CONFIGS (fst (addOpenAIConnectionHandler connection res st)) =
     map_option
       (\<lambda>_. (OPENAI_API_CONFIGS st)(length (OPENAI_API_BASE_URLS st) := conn_config connection))
       (ENABLE_OPENAI_API st)"
  by (simp add: addOpenAIConnectionHandler_def updateOpenAIHandler_def Let_def
      split: option.splits)

lemma addOpenAI_keys_unanswered:
  "aligned st \<Longrightarrow>
   OPENAI_API_KEYS (snd (addOpenAIConnectionHandler connection None st)) =
     OPENAI_API_KEYS st @ [case conn_key connection of None \<Rightarrow> [] | Some k \<Rightarrow> k]"
  by (simp add: addOpenAIConnectionHandler_def updateOpenAIHandler_def Let_def
      ensureOpenAIArrayLengths_def aligned_def split: option.splits)

lemma addOllama_configs:
  "OLLAMA_API_CONFIGS (snd (addOllamaConnectionHandler connection st)) =
     (OLLAMA_API_CONFIGS st)
       (length (OLLAMA_BASE_URLS st) \<mapsto>
          (case conn_config connection of None \<Rightarrow> Map.empty | Some c \<Rightarrow> c)
            (''key'' := map_option JString (conn_key connection)))"
  by (simp add: addOllamaConnectionHandler_def updateOllamaHandler_def Let_def
      split: option.splits)

lemma addOllama_request_configs:
  "map_option req_OLLAMA_API_CONFIGS (fst (addOllamaConnectionHandler connection st)) =
     map_option
       (\<lambda>_. (OLLAMA_API_CONFIGS st)
          (length (OLLAMA_BASE_URLS st) \<mapsto>
             (case conn_config connection of None \<Rightarrow> Map.empty | Some c \<Rightarrow> c)
               (''key'' := map_option JString (conn_key connection))))
       (ENABLE_OLLAMA_API st)"
  by (simp add: addOllamaConnectionHandler_def updateOllamaHandler_def Let_def
      split: option.splits)

text \<open>
  C8, as stated, says that \<open>addOllamaConnectionHandler\<close> does not place the connection's
  key inside \<open>OLLAMA_API_CONFIGS\<close>. Adding the example connection to the example state
  stores its key as the field \<open>key\<close> of the new config.
\<close>

theorem ollama_config_holds_key:
  "conn_key exampleConnection = Some ''sk-secret-1234'' \<and>
   (case OLLAMA_API_CONFIGS (snd (addOllamaConnectionHandler exampleConnection exampleState)) 2 of
      None \<Rightarrow> None
    | Some c \<Rightarrow> c ''key'') = Some (JString ''sk-secret-1234'')"
proof -
  have l: "length (OLLAMA_BASE_URLS exampleState) = 2" by (simp add: exampleState_def)
  have k: "conn_key exampleConnection = Some ''sk-secret-1234''"
    by (simp add: exampleConnection_def)
  have "(case OLLAMA_API_CONFIGS (snd (addOllamaConnectionHandler exampleConnection exampleState)) 2 of
      None \<Rightarrow> None
    | Some c \<Rightarrow> c ''key'') = Some (JString ''sk-secret-1234'')"
    unfolding addOllama_configs l k by simp
  then show ?thesis using k by blast
qed

text \<open>
  C8 (amended): \<open>addOpenAIConnectionHandler\<close> stores the dialog's config object as it is at
  the new position of \<open>OPENAI_API_CONFIGS\<close>, in the state and in the request, and appends
  the key to \<open>OPENAI_API_KEYS\<close>; \<open>addOllamaConnectionHandler\<close>, which has no key list,
  stores the dialog's config with the field \<open>key\<close> set to the connection's key at the new
  position of \<open>OLLAMA_API_CONFIGS\<close>, in the state and in the request.
\<close>

theorem connection_key_placement:
  "OPENAI_API_CONFIGS (snd (addOpenAIConnectionHandler connection None st)) =
     (OPENAI_API_CONFIGS st)(length (OPENAI_API_BASE_URLS st) := conn_config connection) \<and>
   map_option req_OPENAI_API_CONFIGS (fst (addOpenAIConnectionHandler connection res st)) =
     map_option
       (\<lambda>_. (OPENAI_API_CONFIGS st)(length (OPENAI_API_BASE_URLS st) := conn_config connection))
       (ENABLE_OPENAI_API st) \<and>
   (aligned st \<longrightarrow>
      OPENAI_API_KEYS (snd (addOpenAIConnectionHandler connection None st)) =
        OPENAI_API_KEYS st @ [case conn_key connection of None \<Rightarrow> [] | Some k \<Rightarrow> k]) \<and>
   OLLAMA_API_CONFIGS (snd (addOllamaConnectionHandler connection st)) =
     (OLLAMA_API_CONFIGS st)
       (length (OLLAMA_BASE_URLS st) \<mapsto>
          (case conn_config connection of None \<Rightarrow> Map.empty | Some c \<Rightarrow> c)
            (''key'' := map_option JString (conn_key connection))) \<and>
   map_option req_OLLAMA_API_CONFIGS (fst (addOllamaConnectionHandler connection st)) =
     map_option
       (\<lambda>_. (OLLAMA_API_CONFIGS st)
          (length (OLLAMA_BASE_URLS st) \<mapsto>
             (case conn_config connection of None \<Rightarrow> Map.empty | Some c \<Rightarrow> c)
               (''key'' := map_option JString (conn_key connection))))
       (ENABLE_OLLAMA_API st)"
  using addOpenAI_configs_unanswered[of connection st]
    addOpenAI_request_configs[of connection res st]
    addOpenAI_keys_unanswered[of st connection]
    addOllama_configs[of connection st] addOllama_request_configs[of connection st]
  by blast

theorem connection_key_placement_witness:
  "aligned exampleState \<and>
   OPENAI_API_KEYS (snd (addOpenAIConnectionHandler exampleConnection None exampleState)) =
     [[], ''sk-new-key'', ''sk-secret-1234''] \<and>
   OPENAI_API_CONFIGS (snd (addOpenAIConnectionHandler exampleConnection None exampleState)) 2 =
     Some [''enable'' \<mapsto> JBool True] \<and>
   OLLAMA_API_CONFIGS (snd (addOllamaConnectionHandler exampleConnection exampleState)) 2 =
     Some [''enable'' \<mapsto> JBool True, ''key'' \<mapsto> JString ''sk-secret-1234'']"
proof -
  have a: "aligned exampleState" by (simp add: aligned_def exampleState_def)
  note t = connection_key_placement[of exampleConnection exampleState None]
  have k: "OPENAI_API_KEYS exampleState @
             [case conn_key exampleConnection of None \<Rightarrow> [] | Some k \<Rightarrow> k] =
           [[], ''sk-new-key'', ''sk-secret-1234'']"
    by (simp add: exampleState_def exampleConnection_def)
  have c: "((OPENAI_API_CONFIGS exampleState)
             (length (OPENAI_API_BASE_URLS exampleState) := conn_config exampleConnection)) 2 =
           Some [''enable'' \<mapsto> JBool True]"
    by (simp add: exampleState_def exampleConnection_def)
  have o: "((OLLAMA_API_CONFIGS exampleState)
             (length (OLLAMA_BASE_URLS exampleState) \<mapsto>
                (case conn_config exampleConnection of None \<Rightarrow> Map.empty | Some c \<Rightarrow> c)
                  (''key'' := map_option JString (conn_key exampleConnection)))) 2 =
           Some [''enable'' \<mapsto> JBool True, ''key'' \<mapsto> JString ''sk-secret-1234'']"
    by (simp add: exampleState_def exampleConnection_def)
  have k': "OPENAI_API_KEYS (snd (addOpenAIConnectionHandler exampleConnection None exampleState)) =
     [[], ''sk-new-key'', ''sk-secret-1234'']"
    using t a k by metis
  have c': "OPENAI_API_CONFIGS (snd (addOpenAIConnectionHandler exampleConnection None exampleState)) 2 =
     Some [''enable'' \<mapsto> JBool True]"
    using t c by metis
  have o': "OLLAMA_API_CONFIGS (snd (addOllamaConnectionHandler exampleConnection exampleState)) 2 =
     Some [''enable'' \<mapsto> JBool True, ''key'' \<mapsto> JString ''sk-secret-1234'']"
    using t o by metis
  show ?thesis using a k' c' o' by blast
qed

end
